theory Spec2Isabelle
  imports Complex_Main "HOL-Library.Option_ord"
begin

section \<open>Values of the program\<close>

text \<open>
  The application is a Flask service (\<^verbatim>\<open>app.py\<close>) with three routes and one SQLite table.
  JSON values, as \<^verbatim>\<open>request.get_json\<close> produces them and \<^verbatim>\<open>jsonify\<close> consumes them, are
  modelled by one datatype; a Python \<^verbatim>\<open>dict\<close> is an association list in insertion order
  (the order in which Python iterates it), read with \<open>map_of\<close>. Floating-point numbers are
  modelled by the reals they denote (no NaN), strings by \<open>string\<close>.
\<close>

datatype json =
    JNull
  | JBool bool
  | JNum real
  | JStr string
  | JArr "json list"
  | JObj "(string \<times> json) list"

text \<open>The exceptions that can leave a function of the program.\<close>

datatype py_exn =
    TypeError
  | AttributeError
  | ValueError
  | KeyError
  | OperationalError
  | LibraryError string

type_synonym ('k, 'v) dict = "('k \<times> 'v) list"

definition dict_get :: "('k, 'v) dict \<Rightarrow> 'k \<Rightarrow> 'v option" where
  \<comment> \<open>\<^verbatim>\<open>d.get(k)\<close>: the value, or None\<close>
  "dict_get d k = map_of d k"

definition dict_keys :: "('k, 'v) dict \<Rightarrow> 'k list" where
  \<comment> \<open>the keys in iteration order\<close>
  "dict_keys d = map fst d"

definition dict_subscript :: "('k, 'v) dict \<Rightarrow> 'k \<Rightarrow> py_exn + 'v" where
  \<comment> \<open>\<^verbatim>\<open>d[k]\<close>\<close>
  "dict_subscript d k = (case map_of d k of None \<Rightarrow> Inl KeyError | Some v \<Rightarrow> Inr v)"

text \<open>
  \<^verbatim>\<open>max(iterable, key=f)\<close>: the first item whose key is not exceeded by a later one; the
  running maximum is replaced only by an item with a strictly greater key. An empty
  iterable raises ValueError.
\<close>

primrec max_loop :: "('a \<Rightarrow> 'b::linorder) \<Rightarrow> 'a \<Rightarrow> 'a list \<Rightarrow> 'a" where
  "max_loop key m [] = m"
| "max_loop key m (x # xs) = max_loop key (if key x > key m then x else m) xs"

definition py_max :: "'a list \<Rightarrow> ('a \<Rightarrow> 'b::linorder) \<Rightarrow> py_exn + 'a" where
  "py_max xs key = (case xs of [] \<Rightarrow> Inl ValueError | x # rest \<Rightarrow> Inr (max_loop key x rest))"

section \<open>The persistence store\<close>

text \<open>
  The database file holds at most the table \<^verbatim>\<open>predictions\<close> (\<open>None\<close>: the table does not
  exist yet). A table is its rows in insertion order and the counter that SQLite keeps
  for an \<^verbatim>\<open>AUTOINCREMENT\<close> key, the largest id ever used.
\<close>

record prediction_row =
  row_id :: int
  timestamp :: string
  emotion :: string
  confidence :: real

record pred_table =
  seq :: int
  rows :: "prediction_row list"

type_synonym db = "pred_table option"

definition records :: "db \<Rightarrow> prediction_row list" where
  "records d = (case d of None \<Rightarrow> [] | Some t \<Rightarrow> rows t)"

definition init_db :: "db \<Rightarrow> db" where
  \<comment> \<open>\<^verbatim>\<open>CREATE TABLE IF NOT EXISTS predictions (...)\<close>\<close>
  "init_db d = (case d of None \<Rightarrow> Some \<lparr>seq = 0, rows = []\<rparr> | Some t \<Rightarrow> Some t)"

definition next_id :: "pred_table \<Rightarrow> int" where
  \<comment> \<open>one more than the largest id the table holds or ever held\<close>
  "next_id t = foldr max (map row_id (rows t)) (seq t) + 1"

definition save_prediction :: "string \<Rightarrow> string \<Rightarrow> real \<Rightarrow> db \<Rightarrow> py_exn + db" where
  \<comment> \<open>\<^verbatim>\<open>INSERT INTO predictions (timestamp, emotion, confidence) VALUES (?, ?, ?)\<close>, with
      the time of the call as first argument\<close>
  "save_prediction now emo conf d =
     (case d of
        None \<Rightarrow> Inl OperationalError
      | Some t \<Rightarrow>
          Inr (Some \<lparr>seq = next_id t,
                     rows = rows t @
                       [\<lparr>row_id = next_id t, timestamp = now, emotion = emo, confidence = conf\<rparr>]\<rparr>))"

definition select_recent :: "pred_table \<Rightarrow> prediction_row list" where
  \<comment> \<open>\<^verbatim>\<open>SELECT ... FROM predictions ORDER BY id DESC LIMIT 100\<close>\<close>
  "select_recent t = take 100 (rev (sort_key row_id (rows t)))"

section \<open>The image decoder\<close>

type_synonym bytes = "nat list"
type_synonym pixels = "(nat \<times> nat \<times> nat) list list"

text \<open>
  A detected face, as the detection library returns it: a dictionary with a bounding box
  and, under the key \<^verbatim>\<open>"emotions"\<close>, the emotion-score mapping (\<open>None\<close>: the key is absent).
\<close>

record face =
  box :: "int list"
  emotions :: "(string, real) dict option"

text \<open>
  The libraries the program calls and the clock it reads are parameters of the model;
  each call may raise.
\<close>

record env =
  b64decode :: "string \<Rightarrow> py_exn + bytes"
  pil_open_rgb :: "bytes \<Rightarrow> py_exn + pixels"
  np_array :: "pixels \<Rightarrow> py_exn + pixels"
  cvt_rgb2bgr :: "pixels \<Rightarrow> py_exn + pixels"
  detect_emotions :: "pixels \<Rightarrow> py_exn + face list"
  utcnow_isoformat :: string

fun split_comma :: "string \<Rightarrow> (string \<times> string) option" where
  \<comment> \<open>\<^verbatim>\<open>header, encoded = s.split(",", 1)\<close>; \<open>None\<close> when the unpacking raises ValueError\<close>
  "split_comma [] = None"
| "split_comma (c # cs) =
     (if c = CHR '','' then Some ([], cs)
      else map_option (\<lambda>(h, e). (c # h, e)) (split_comma cs))"

fun data_url_to_cv2_image :: "env \<Rightarrow> json \<Rightarrow> py_exn + pixels option" where
  "data_url_to_cv2_image env (JStr data_url) =
     (case split_comma data_url of
        None \<Rightarrow> Inr None
      | Some (header, encoded) \<Rightarrow>
          (case b64decode env encoded of
             Inl e \<Rightarrow> Inl e
           | Inr binary \<Rightarrow>
               (case pil_open_rgb env binary of
                  Inl e \<Rightarrow> Inl e
                | Inr pil_img \<Rightarrow>
                    (case np_array env pil_img of
                       Inl e \<Rightarrow> Inl e
                     | Inr arr \<Rightarrow>
                         (case cvt_rgb2bgr env arr of
                            Inl e \<Rightarrow> Inl e
                          | Inr bgr \<Rightarrow> Inr (Some bgr))))))"
| "data_url_to_cv2_image env _ = Inl AttributeError"

section \<open>The routes\<close>

type_synonym response = "json \<times> nat"

fun falsy :: "json \<Rightarrow> bool" where
  \<comment> \<open>\<^verbatim>\<open>not payload\<close>\<close>
  "falsy JNull = True"
| "falsy (JBool b) = (\<not> b)"
| "falsy (JNum n) = (n = 0)"
| "falsy (JStr s) = (s = [])"
| "falsy (JArr xs) = (xs = [])"
| "falsy (JObj kvs) = (kvs = [])"

fun starts_with :: "'a list \<Rightarrow> 'a list \<Rightarrow> bool" where
  "starts_with s [] = True"
| "starts_with [] (p # ps) = False"
| "starts_with (c # cs) (p # ps) = (c = p \<and> starts_with cs ps)"

fun str_contains :: "string \<Rightarrow> string \<Rightarrow> bool" where
  "str_contains [] p = (p = [])"
| "str_contains (c # cs) p = (starts_with (c # cs) p \<or> str_contains cs p)"

fun py_in :: "string \<Rightarrow> json \<Rightarrow> py_exn + bool" where
  \<comment> \<open>\<^verbatim>\<open>k in payload\<close> for a string \<open>k\<close>\<close>
  "py_in k (JObj kvs) = Inr (map_of kvs k \<noteq> None)"
| "py_in k (JArr xs) = Inr (JStr k \<in> set xs)"
| "py_in k (JStr s) = Inr (str_contains s k)"
| "py_in k _ = Inl TypeError"

fun py_subscript :: "json \<Rightarrow> string \<Rightarrow> py_exn + json" where
  \<comment> \<open>\<^verbatim>\<open>payload[k]\<close> for a string \<open>k\<close>\<close>
  "py_subscript (JObj kvs) k = (case map_of kvs k of None \<Rightarrow> Inl KeyError | Some v \<Rightarrow> Inr v)"
| "py_subscript _ k = Inl TypeError"

definition face_emotions :: "face \<Rightarrow> (string, real) dict" where
  \<comment> \<open>\<^verbatim>\<open>face.get("emotions", {})\<close>\<close>
  "face_emotions f = (case emotions f of None \<Rightarrow> [] | Some e \<Rightarrow> e)"

definition predict :: "env \<Rightarrow> db \<Rightarrow> json \<Rightarrow> (py_exn + response) \<times> db" where
  "predict env d payload =
     (if falsy payload then
        (Inr (JObj [(''error'', JStr ''Missing 'image' in JSON body'')], 400), d)
      else
        (case py_in ''image'' payload of
           Inl e \<Rightarrow> (Inl e, d)
         | Inr False \<Rightarrow>
             (Inr (JObj [(''error'', JStr ''Missing 'image' in JSON body'')], 400), d)
         | Inr True \<Rightarrow>
        (case py_subscript payload ''image'' of
           Inl e \<Rightarrow> (Inl e, d)
         | Inr data_url \<Rightarrow>
        (case data_url_to_cv2_image env data_url of
           Inl e \<Rightarrow> (Inl e, d)
         | Inr None \<Rightarrow> (Inr (JObj [(''error'', JStr ''Invalid image data'')], 400), d)
         | Inr (Some cv_img) \<Rightarrow>
        (case detect_emotions env cv_img of
           Inl e \<Rightarrow> (Inl e, d)
         | Inr faces \<Rightarrow>
        (case faces of
           [] \<Rightarrow>
             (Inr (JObj [(''emotion'', JNull), (''confidence'', JNum 0),
                         (''message'', JStr ''No face detected'')], 200), d)
         | face0 # _ \<Rightarrow>
             (let emos = face_emotions face0 in
              if emos = [] then
                (Inr (JObj [(''emotion'', JNull), (''confidence'', JNum 0),
                            (''message'', JStr ''No emotion scores'')], 200), d)
              else
                (case py_max (dict_keys emos) (dict_get emos) of
                   Inl e \<Rightarrow> (Inl e, d)
                 | Inr emo \<Rightarrow>
                (case dict_subscript emos emo of
                   Inl e \<Rightarrow> (Inl e, d)
                 | Inr conf \<Rightarrow>
                (case save_prediction (utcnow_isoformat env) emo conf d of
                   Inl e \<Rightarrow> (Inl e, d)
                 | Inr d' \<Rightarrow>
                     (Inr (JObj [(''emotion'', JStr emo), (''confidence'', JNum conf)], 200),
                      d')))))))))))"

definition history_entry :: "prediction_row \<Rightarrow> json" where
  "history_entry r =
     JObj [(''timestamp'', JStr (timestamp r)), (''emotion'', JStr (emotion r)),
           (''confidence'', JNum (confidence r))]"

definition history :: "db \<Rightarrow> (py_exn + response) \<times> db" where
  "history d =
     (case d of
        None \<Rightarrow> (Inl OperationalError, d)
      | Some t \<Rightarrow>
          (Inr (JObj [(''history'', JArr (map history_entry (select_recent t)))], 200), d))"

definition field :: "json \<Rightarrow> string \<Rightarrow> json option" where
  \<comment> \<open>the member of a JSON object under a key\<close>
  "field j k = (case j of JObj kvs \<Rightarrow> map_of kvs k | _ \<Rightarrow> None)"

section \<open>States of the store that the service can be in\<close>

text \<open>
  The module creates the table when it is loaded (\<^verbatim>\<open>init_db()\<close> at top level), before any
  request is served; afterwards the store changes only through the routes and through a
  restart, which runs \<open>init_db\<close> again. \<open>reachable_under P\<close> holds of the stores that arise
  this way when every \<^verbatim>\<open>/predict\<close> request is served in an environment satisfying \<open>P\<close>.
\<close>

inductive reachable_under :: "(env \<Rightarrow> bool) \<Rightarrow> db \<Rightarrow> bool" for P :: "env \<Rightarrow> bool" where
  startup: "reachable_under P (init_db None)"
| restart: "reachable_under P d \<Longrightarrow> reachable_under P (init_db d)"
| predict_step: "reachable_under P d \<Longrightarrow> P env \<Longrightarrow> reachable_under P (snd (predict env d payload))"
| history_step: "reachable_under P d \<Longrightarrow> reachable_under P (snd (history d))"

definition reachable :: "db \<Rightarrow> bool" where
  "reachable d = reachable_under (\<lambda>env. True) d"

definition ids_ascending :: "db \<Rightarrow> bool" where
  \<comment> \<open>later rows have larger ids\<close>
  "ids_ascending d = sorted_wrt (<) (map row_id (records d))"

definition scores_in_unit :: "env \<Rightarrow> bool" where
  \<comment> \<open>the detector's contract: every score of every face it returns lies in [0,1]\<close>
  "scores_in_unit env =
     (\<forall>img faces. detect_emotions env img = Inr faces \<longrightarrow>
        (\<forall>f \<in> set faces. \<forall>(l, s) \<in> set (face_emotions f). 0 \<le> s \<and> s \<le> 1))"

definition confidences_in_unit :: "db \<Rightarrow> bool" where
  "confidences_in_unit d = (\<forall>r \<in> set (records d). 0 \<le> confidence r \<and> confidence r \<le> 1)"

section \<open>Concrete requests\<close>

definition sample_env :: "face list \<Rightarrow> env" where
  "sample_env faces =
     \<lparr>b64decode = (\<lambda>s. Inr [137, 80, 78, 71]),
      pil_open_rgb = (\<lambda>b. Inr [[(255, 0, 0)]]),
      np_array = (\<lambda>p. Inr p),
      cvt_rgb2bgr = (\<lambda>p. Inr (map (map (\<lambda>(r, g, b). (b, g, r))) p)),
      detect_emotions = (\<lambda>img. Inr faces),
      utcnow_isoformat = ''2024-05-01T12:00:00''\<rparr>"

definition sample_payload :: json where
  "sample_payload = JObj [(''image'', JStr ''data:image/png;base64,iVBORw=='')]"

definition happy_face :: face where
  "happy_face = \<lparr>box = [0, 0, 48, 48], emotions = Some [(''happy'', 9 / 10), (''sad'', 1 / 10)]\<rparr>"

definition blank_face :: face where
  "blank_face = \<lparr>box = [0, 0, 48, 48], emotions = Some []\<rparr>"

definition sad_face :: face where
  "sad_face = \<lparr>box = [50, 0, 48, 48], emotions = Some [(''happy'', 1 / 5), (''sad'', 4 / 5)]\<rparr>"

definition empty_store :: db where
  "empty_store = init_db None"

definition one_row_store :: db where
  "one_row_store =
     Some \<lparr>seq = 1,
           rows = [\<lparr>row_id = 1, timestamp = ''2024-05-01T12:00:00'', emotion = ''happy'',
                    confidence = 9 / 10\<rparr>]\<rparr>"

text \<open>
  Stores built by serving requests one after the other from startup: three requests at
  different times with different faces, and \<open>n\<close> requests whose \<open>k\<close>-th score is \<open>k / 200\<close>.
\<close>

definition sample_env_at :: "string \<Rightarrow> face list \<Rightarrow> env" where
  "sample_env_at ts faces = (sample_env faces)\<lparr>utcnow_isoformat := ts\<rparr>"

definition three_row_store :: db where
  "three_row_store =
     snd (predict (sample_env_at ''2024-05-01T12:00:03'' [happy_face])
       (snd (predict (sample_env_at ''2024-05-01T12:00:02'' [sad_face])
         (snd (predict (sample_env_at ''2024-05-01T12:00:01'' [happy_face])
            (init_db None) sample_payload))
         sample_payload))
       sample_payload)"

primrec served_store :: "nat \<Rightarrow> db" where
  "served_store 0 = init_db None"
| "served_store (Suc n) =
     snd (predict (sample_env [\<lparr>box = [], emotions = Some [(''happy'', real n / 200)]\<rparr>])
            (served_store n) sample_payload)"

section \<open>Auxiliary facts\<close>

lemma split_comma_None_iff: "split_comma s = None \<longleftrightarrow> CHR '','' \<notin> set s"
  by (induction s) auto

lemma max_loop_mem: "max_loop key m xs \<in> set (m # xs)"
  by (induction xs arbitrary: m) auto

lemma max_loop_ge_start: "key m \<le> key (max_loop key m xs)"
proof (induction xs arbitrary: m)
  case Nil
  show ?case by simp
next
  case (Cons x xs)
  have "key m \<le> key (if key m < key x then x else m)" by (simp add: less_imp_le)
  also have "\<dots> \<le> key (max_loop key (if key m < key x then x else m) xs)"
    by (rule Cons.IH)
  finally show ?case by simp
qed

lemma max_loop_upper: "x \<in> set (m # xs) \<Longrightarrow> key x \<le> key (max_loop key m xs)"
proof (induction xs arbitrary: m)
  case Nil
  then show ?case by simp
next
  case (Cons y ys)
  let ?m' = "if key m < key y then y else m"
  have step: "key ?m' \<le> key (max_loop key ?m' ys)" by (rule max_loop_ge_start)
  from Cons.prems consider "x = m" | "x = y" | "x \<in> set ys" by auto
  then show ?case
  proof cases
    case 1
    have "key m \<le> key ?m'" by (simp add: less_imp_le)
    with step 1 show ?thesis by auto
  next
    case 2
    have "key y \<le> key ?m'" by (simp add: not_less)
    with step 2 show ?thesis by auto
  next
    case 3
    then have "x \<in> set (?m' # ys)" by simp
    from Cons.IH[OF this] show ?thesis by simp
  qed
qed

lemma py_max_dict:
  assumes "emos \<noteq> []"
  shows "\<exists>l c. py_max (dict_keys emos) (dict_get emos) = Inr l \<and> map_of emos l = Some c
           \<and> (\<forall>l' c'. map_of emos l' = Some c' \<longrightarrow> c' \<le> c)"
proof -
  from assms obtain k v rest where e: "emos = (k, v) # rest" by (cases emos) auto
  define l where "l = max_loop (dict_get emos) k (map fst rest)"
  have pm: "py_max (dict_keys emos) (dict_get emos) = Inr l"
    by (simp add: py_max_def dict_keys_def e l_def)
  have "l \<in> set (k # map fst rest)" unfolding l_def by (rule max_loop_mem)
  then have lin: "l \<in> fst ` set emos" by (auto simp: e)
  then obtain c where c: "map_of emos l = Some c"
    by (metis map_of_eq_None_iff not_Some_eq)
  have "c' \<le> c" if h: "map_of emos l' = Some c'" for l' c'
  proof -
    from h have "l' \<in> fst ` set emos" by (metis map_of_eq_None_iff option.distinct(1))
    then have "l' \<in> set (k # map fst rest)" by (auto simp: e)
    then have "dict_get emos l' \<le> dict_get emos l" unfolding l_def by (rule max_loop_upper)
    with h c show ?thesis by (simp add: dict_get_def)
  qed
  with pm c show ?thesis by blast
qed

lemma py_in_True_imp:
  "\<not> falsy payload \<Longrightarrow> py_in k payload = Inr True \<Longrightarrow> py_subscript payload k = Inr u \<Longrightarrow>
   \<exists>kvs. payload = JObj kvs \<and> map_of kvs k = Some u"
  by (cases payload) (auto split: option.splits)

lemma predict_image_path:
  assumes "payload = JObj kvs" and "map_of kvs ''image'' = Some u"
  shows "predict env d payload =
     (case data_url_to_cv2_image env u of
           Inl e \<Rightarrow> (Inl e, d)
         | Inr None \<Rightarrow> (Inr (JObj [(''error'', JStr ''Invalid image data'')], 400), d)
         | Inr (Some cv_img) \<Rightarrow>
        (case detect_emotions env cv_img of
           Inl e \<Rightarrow> (Inl e, d)
         | Inr faces \<Rightarrow>
        (case faces of
           [] \<Rightarrow>
             (Inr (JObj [(''emotion'', JNull), (''confidence'', JNum 0),
                         (''message'', JStr ''No face detected'')], 200), d)
         | face0 # _ \<Rightarrow>
              if face_emotions face0 = [] then
                (Inr (JObj [(''emotion'', JNull), (''confidence'', JNum 0),
                            (''message'', JStr ''No emotion scores'')], 200), d)
              else
                (case py_max (dict_keys (face_emotions face0)) (dict_get (face_emotions face0)) of
                   Inl e \<Rightarrow> (Inl e, d)
                 | Inr emo \<Rightarrow>
                (case dict_subscript (face_emotions face0) emo of
                   Inl e \<Rightarrow> (Inl e, d)
                 | Inr conf \<Rightarrow>
                (case save_prediction (utcnow_isoformat env) emo conf d of
                   Inl e \<Rightarrow> (Inl e, d)
                 | Inr d' \<Rightarrow>
                     (Inr (JObj [(''emotion'', JStr emo), (''confidence'', JNum conf)], 200),
                      d')))))))"
proof -
  from assms(2) have ne: "kvs \<noteq> []" by auto
  show ?thesis
    unfolding predict_def assms(1)
    by (simp add: ne assms(2) Let_def split: sum.split option.split list.split)
qed

lemma predict_outcome:
  assumes "predict env d payload = (out, d')"
  shows "(d' = d \<and>
          ((\<exists>e. out = Inl e)
           \<or> out = Inr (JObj [(''error'', JStr ''Missing 'image' in JSON body'')], 400)
           \<or> (out = Inr (JObj [(''error'', JStr ''Invalid image data'')], 400)
               \<and> (\<exists>kvs s. payload = JObj kvs \<and> map_of kvs ''image'' = Some (JStr s)
                     \<and> CHR '','' \<notin> set s))
           \<or> out = Inr (JObj [(''emotion'', JNull), (''confidence'', JNum 0),
                         (''message'', JStr ''No face detected'')], 200)
           \<or> out = Inr (JObj [(''emotion'', JNull), (''confidence'', JNum 0),
                            (''message'', JStr ''No emotion scores'')], 200)))
       \<or> (\<exists>t kvs u img f fs l c.
             d = Some t \<and> payload = JObj kvs \<and> map_of kvs ''image'' = Some u
             \<and> data_url_to_cv2_image env u = Inr (Some img)
             \<and> detect_emotions env img = Inr (f # fs)
             \<and> face_emotions f \<noteq> []
             \<and> py_max (dict_keys (face_emotions f)) (dict_get (face_emotions f)) = Inr l
             \<and> map_of (face_emotions f) l = Some c
             \<and> out = Inr (JObj [(''emotion'', JStr l), (''confidence'', JNum c)], 200)
             \<and> d' = Some \<lparr>seq = next_id t,
                          rows = rows t @ [\<lparr>row_id = next_id t,
                             timestamp = utcnow_isoformat env, emotion = l, confidence = c\<rparr>]\<rparr>)"
proof (cases "falsy payload")
  case True
  with assms show ?thesis by (auto simp: predict_def)
next
  case nf: False
  show ?thesis
  proof (cases "py_in ''image'' payload")
    case (Inl e)
    with assms nf show ?thesis by (auto simp: predict_def)
  next
    case (Inr b)
    show ?thesis
    proof (cases b)
      case False
      with assms nf Inr show ?thesis by (auto simp: predict_def)
    next
      case True
      show ?thesis
      proof (cases "py_subscript payload ''image''")
        case (Inl e)
        with assms nf Inr True show ?thesis by (auto simp: predict_def)
      next
        case u: (Inr u)
        from py_in_True_imp[OF nf _ u] Inr True
        obtain kvs where p: "payload = JObj kvs" and m: "map_of kvs ''image'' = Some u"
          by auto
        note path = predict_image_path[OF p m, of env d]
        have inv: "\<exists>s. u = JStr s \<and> CHR '','' \<notin> set s"
          if "data_url_to_cv2_image env u = Inr None"
          using that
          by (cases u) (auto split: option.splits sum.splits simp: split_comma_None_iff)
        from assms path p m inv show ?thesis
          by (auto simp: save_prediction_def dict_subscript_def
                   split: sum.splits option.splits list.splits if_splits)
      qed
    qed
  qed
qed

lemma foldr_max_ge_init: "(s::int) \<le> foldr max xs s"
  by (induction xs) auto

lemma foldr_max_ge_elem: "(x::int) \<in> set xs \<Longrightarrow> x \<le> foldr max xs s"
  by (induction xs) auto

lemma next_id_fresh: "r \<in> set (rows t) \<Longrightarrow> row_id r < next_id t"
proof -
  assume "r \<in> set (rows t)"
  then have "row_id r \<in> set (map row_id (rows t))" by simp
  then have "row_id r \<le> foldr max (map row_id (rows t)) (seq t)" by (rule foldr_max_ge_elem)
  then show ?thesis by (simp add: next_id_def)
qed

lemma insort_key_snoc:
  "f a \<le> f x \<Longrightarrow> insort_key f a (zs @ [x]) = insort_key f a zs @ [x]"
  by (induction zs) auto

lemma foldr_insort_snoc:
  "\<forall>a \<in> set xs. f a \<le> f x \<Longrightarrow>
   foldr (insort_key f) xs (ys @ [x]) = foldr (insort_key f) xs ys @ [x]"
  by (induction xs) (auto simp: insort_key_snoc)

lemma sort_key_snoc:
  assumes "\<forall>a \<in> set xs. f a \<le> f x"
  shows "sort_key f (xs @ [x]) = sort_key f xs @ [x]"
proof -
  have "sort_key f (xs @ [x]) = foldr (insort_key f) xs ([] @ [x])"
    by (simp add: sort_key_def)
  also have "\<dots> = foldr (insort_key f) xs [] @ [x]"
    using assms by (rule foldr_insort_snoc)
  finally show ?thesis by (simp add: sort_key_def)
qed

lemma select_recent_after_insert:
  "select_recent \<lparr>seq = next_id t, rows = rows t @ [\<lparr>row_id = next_id t, timestamp = ts,
       emotion = l, confidence = c\<rparr>]\<rparr>
   = \<lparr>row_id = next_id t, timestamp = ts, emotion = l, confidence = c\<rparr>
       # take 99 (rev (sort_key row_id (rows t)))"
proof -
  let ?new = "\<lparr>row_id = next_id t, timestamp = ts, emotion = l, confidence = c\<rparr>"
  have "\<forall>a \<in> set (rows t). row_id a \<le> row_id ?new"
    using next_id_fresh[of _ t] by (auto simp: less_imp_le)
  then have "sort_key row_id (rows t @ [?new]) = sort_key row_id (rows t) @ [?new]"
    by (rule sort_key_snoc)
  then show ?thesis by (simp add: select_recent_def)
qed

lemma data_url_detector_irrelevant:
  "data_url_to_cv2_image (env\<lparr>detect_emotions := det\<rparr>) u = data_url_to_cv2_image env u"
  by (cases u) (simp_all split: option.split sum.split prod.split)

lemma history_keeps_store: "snd (history d) = d"
  by (cases d) (simp_all add: history_def)

lemma init_db_ids_ascending: "ids_ascending d \<Longrightarrow> ids_ascending (init_db d)"
  by (cases d) (simp_all add: ids_ascending_def init_db_def records_def)

lemma predict_ids_ascending:
  assumes "ids_ascending d"
  shows "ids_ascending (snd (predict env d payload))"
proof -
  obtain out d' where p: "predict env d payload = (out, d')" by (cases "predict env d payload")
  from predict_outcome[OF p] assms show ?thesis
    unfolding p
    by (auto simp: ids_ascending_def records_def sorted_wrt_append next_id_fresh)
qed

lemma reachable_under_table:
  "reachable_under P d \<Longrightarrow> d \<noteq> None \<and> ids_ascending d"
proof (induction rule: reachable_under.induct)
  case startup
  show ?case by (simp add: init_db_def ids_ascending_def records_def)
next
  case (restart d)
  then show ?case by (auto simp: init_db_ids_ascending) (auto simp: init_db_def)
next
  case (predict_step d env payload)
  obtain out d' where p: "predict env d payload = (out, d')" by (cases "predict env d payload")
  from predict_outcome[OF p] predict_step.IH have "d' \<noteq> None" by auto
  with predict_ids_ascending[of d env payload] predict_step.IH p show ?case by simp
next
  case (history_step d)
  then show ?case by (simp add: history_keeps_store)
qed

lemma reachable_under_confidences:
  "reachable_under scores_in_unit d \<Longrightarrow> confidences_in_unit d"
proof (induction rule: reachable_under.induct)
  case startup
  show ?case by (simp add: init_db_def confidences_in_unit_def records_def)
next
  case (restart d)
  then show ?case by (cases d) (simp_all add: init_db_def confidences_in_unit_def records_def)
next
  case (predict_step d env payload)
  obtain out d' where p: "predict env d payload = (out, d')" by (cases "predict env d payload")
  from predict_outcome[OF p]
  consider "d' = d"
    | t img f fs l c where "d = Some t" "detect_emotions env img = Inr (f # fs)"
        "map_of (face_emotions f) l = Some c"
        "d' = Some \<lparr>seq = next_id t, rows = rows t @ [\<lparr>row_id = next_id t,
                 timestamp = utcnow_isoformat env, emotion = l, confidence = c\<rparr>]\<rparr>"
    by blast
  then show ?case
  proof cases
    case 1
    with predict_step.IH p show ?thesis by simp
  next
    case 2
    from 2(3) have "(l, c) \<in> set (face_emotions f)" by (rule map_of_SomeD)
    with predict_step.hyps(2) 2(2) have "0 \<le> c \<and> c \<le> 1"
      unfolding scores_in_unit_def by fastforce
    with predict_step.IH 2(1,4) p show ?thesis
      by (auto simp: confidences_in_unit_def records_def)
  qed
next
  case (history_step d)
  then show ?case by (simp add: history_keeps_store)
qed

lemma three_row_store_rows: "three_row_store =
   Some \<lparr>seq = 3,
     rows = [\<lparr>row_id = 1, timestamp = ''2024-05-01T12:00:01'', emotion = ''happy'', confidence = 9 / 10\<rparr>,
             \<lparr>row_id = 2, timestamp = ''2024-05-01T12:00:02'', emotion = ''sad'', confidence = 4 / 5\<rparr>,
             \<lparr>row_id = 3, timestamp = ''2024-05-01T12:00:03'', emotion = ''happy'', confidence = 9 / 10\<rparr>]\<rparr>"
  by (simp add: three_row_store_def predict_def sample_env_at_def sample_env_def sample_payload_def
        init_db_def happy_face_def sad_face_def face_emotions_def py_max_def dict_keys_def
        dict_get_def dict_subscript_def save_prediction_def next_id_def)

lemma served_store_reachable: "reachable (served_store n)"
  unfolding reachable_def
  by (induction n) (auto intro: reachable_under.intros)

lemma served_store_rows:
  "served_store n = Some \<lparr>seq = int n,
      rows = map (\<lambda>k. \<lparr>row_id = int k + 1, timestamp = ''2024-05-01T12:00:00'',
                          emotion = ''happy'', confidence = real k / 200\<rparr>) [0..<n]\<rparr>"
proof (induction n)
  case 0
  show ?case by (simp add: init_db_def)
next
  case (Suc n)
  have nid: "next_id \<lparr>seq = int n,
      rows = map (\<lambda>k. \<lparr>row_id = int k + 1, timestamp = ''2024-05-01T12:00:00'',
                          emotion = ''happy'', confidence = real k / 200\<rparr>) [0..<n]\<rparr> = int n + 1"
  proof -
    have "foldr max (map (\<lambda>k. int k + 1) [0..<m]) (int m) = int m" for m
    proof (induction m)
      case 0 show ?case by simp
    next
      case (Suc m)
      have "\<forall>x \<in> set (map (\<lambda>k. int k + 1) [0..<Suc m]). x \<le> int (Suc m)" by auto
      moreover have "foldr max xs s = s" if "\<forall>x \<in> set xs. x \<le> s" for xs and s :: int
        using that by (induction xs) auto
      ultimately show ?case by blast
    qed
    then show ?thesis by (simp add: next_id_def comp_def)
  qed
  show ?case
    by (simp add: Suc.IH predict_def sample_env_def sample_payload_def
        face_emotions_def py_max_def dict_keys_def
        dict_get_def dict_subscript_def save_prediction_def nid)
qed

section \<open>The claims\<close>

text \<open>
  Claim C1, for the first detected face. For every \<^verbatim>\<open>/predict\<close> request, served in a
  state the service can be in, whose image decodes and whose \<^emph>\<open>first\<close> detected face has a non-empty
  emotion-score mapping, the response has status 200, its \<^verbatim>\<open>emotion\<close> member is a label
  of that mapping whose score no other label of the mapping exceeds, and its
  \<^verbatim>\<open>confidence\<close> member is that label's score.
\<close>

theorem predict_top_emotion:
  assumes "reachable d"
    and "payload = JObj kvs" and "map_of kvs ''image'' = Some u"
    and "data_url_to_cv2_image env u = Inr (Some img)"
    and "detect_emotions env img = Inr (f # fs)"
    and "face_emotions f \<noteq> []"
  shows "\<exists>l c. fst (predict env d payload)
                 = Inr (JObj [(''emotion'', JStr l), (''confidence'', JNum c)], 200)
               \<and> map_of (face_emotions f) l = Some c
               \<and> (\<forall>l' c'. map_of (face_emotions f) l' = Some c' \<longrightarrow> c' \<le> c)"
proof -
  from py_max_dict[OF assms(6)] obtain l c where
    pm: "py_max (dict_keys (face_emotions f)) (dict_get (face_emotions f)) = Inr l"
    and lc: "map_of (face_emotions f) l = Some c"
    and mx: "\<forall>l' c'. map_of (face_emotions f) l' = Some c' \<longrightarrow> c' \<le> c"
    by blast
  from assms(1) have "reachable_under (\<lambda>env. True) d" by (simp add: reachable_def)
  then have "d \<noteq> None" by (simp add: reachable_under_table)
  then obtain t where t: "d = Some t" by auto
  have "fst (predict env d payload)
          = Inr (JObj [(''emotion'', JStr l), (''confidence'', JNum c)], 200)"
    unfolding predict_image_path[OF assms(2,3)]
    by (simp add: t assms(4,5,6) pm lc dict_subscript_def save_prediction_def)
  with lc mx show ?thesis by blast
qed

text \<open>
  The statement at a request with two faces, on the store right after startup: the
  answer is the top label of the first face.
\<close>

theorem predict_top_emotion_witness:
  "reachable empty_store
   \<and> fst (predict (sample_env [sad_face, happy_face]) empty_store sample_payload)
     = Inr (JObj [(''emotion'', JStr ''sad''), (''confidence'', JNum (4 / 5))], 200)"
proof -
  have 1: "reachable empty_store"
    by (simp add: reachable_def empty_store_def reachable_under.startup)
  have 2: "sample_payload = JObj [(''image'', JStr ''data:image/png;base64,iVBORw=='')]"
    by (simp add: sample_payload_def)
  have 3: "map_of [(''image'', JStr ''data:image/png;base64,iVBORw=='')] ''image''
             = Some (JStr ''data:image/png;base64,iVBORw=='')" by simp
  have 4: "data_url_to_cv2_image (sample_env [sad_face, happy_face])
             (JStr ''data:image/png;base64,iVBORw=='') = Inr (Some [[(0, 0, 255)]])"
    by (simp add: sample_env_def)
  have 5: "detect_emotions (sample_env [sad_face, happy_face]) [[(0, 0, 255)]]
             = Inr (sad_face # [happy_face])"
    by (simp add: sample_env_def)
  have 6: "face_emotions sad_face \<noteq> []" by (simp add: face_emotions_def sad_face_def)
  have fe: "face_emotions sad_face = [(''happy'', 1 / 5), (''sad'', 4 / 5)]"
    by (simp add: face_emotions_def sad_face_def)
  from predict_top_emotion[OF 1 2 3 4 5 6] obtain l c where
    r: "fst (predict (sample_env [sad_face, happy_face]) empty_store sample_payload)
          = Inr (JObj [(''emotion'', JStr l), (''confidence'', JNum c)], 200)"
    and lc: "map_of (face_emotions sad_face) l = Some c"
    and mx: "\<forall>l' c'. map_of (face_emotions sad_face) l' = Some c' \<longrightarrow> c' \<le> c"
    by blast
  have "map_of (face_emotions sad_face) ''sad'' = Some (4 / 5)" by (simp add: fe)
  with mx have "4 / 5 \<le> c" by blast
  with lc have "l = ''sad'' \<and> c = 4 / 5" by (auto simp: fe split: if_splits)
  with r 1 show ?thesis by simp
qed

text \<open>
  Counterexample to claim C1 read for \<^emph>\<open>some\<close> detected face with a non-empty mapping.
  Here the detector returns two faces, the first with an empty mapping and the second
  with scores: the response carries no label at all (emotion null, confidence 0.0), and
  the first face's mapping has no label the response could name.
\<close>

theorem predict_some_face_counterexample:
  "detect_emotions (sample_env [blank_face, sad_face]) [[(0, 0, 255)]] = Inr [blank_face, sad_face]
   \<and> data_url_to_cv2_image (sample_env [blank_face, sad_face])
        (JStr ''data:image/png;base64,iVBORw=='') = Inr (Some [[(0, 0, 255)]])
   \<and> face_emotions blank_face = []
   \<and> face_emotions sad_face = [(''happy'', 1 / 5), (''sad'', 4 / 5)]
   \<and> predict (sample_env [blank_face, sad_face]) empty_store
        (JObj [(''image'', JStr ''data:image/png;base64,iVBORw=='')])
       = (Inr (JObj [(''emotion'', JNull), (''confidence'', JNum 0),
                     (''message'', JStr ''No emotion scores'')], 200), empty_store)"
  by (simp add: sample_env_def predict_def face_emotions_def sad_face_def blank_face_def)

text \<open>
  Claim C2. A \<^verbatim>\<open>/predict\<close> request that returns a predicted result, that is a response
  whose \<^verbatim>\<open>emotion\<close> member is a label \<open>l\<close> and whose \<^verbatim>\<open>confidence\<close> member is a number \<open>c\<close>,
  leaves the store with exactly one more row, appended after the old ones: the time of
  the call, \<open>l\<close> and \<open>c\<close>.
\<close>

theorem predict_result_logged:
  assumes "predict env d payload = (Inr (body, status), d')"
    and "field body ''emotion'' = Some (JStr l)"
    and "field body ''confidence'' = Some (JNum c)"
  shows "\<exists>i. records d' = records d @
            [\<lparr>row_id = i, timestamp = utcnow_isoformat env, emotion = l, confidence = c\<rparr>]"
  using predict_outcome[OF assms(1)] assms(2,3)
  by (auto simp: field_def records_def)

text \<open>
  The statement at a request on a store that already holds one row.
\<close>

theorem predict_result_logged_witness:
  "predict (sample_env [happy_face]) one_row_store sample_payload
     = (Inr (JObj [(''emotion'', JStr ''happy''), (''confidence'', JNum (9 / 10))], 200),
        Some \<lparr>seq = 2,
           rows = [\<lparr>row_id = 1, timestamp = ''2024-05-01T12:00:00'', emotion = ''happy'',
                    confidence = 9 / 10\<rparr>,
                   \<lparr>row_id = 2, timestamp = ''2024-05-01T12:00:00'', emotion = ''happy'',
                    confidence = 9 / 10\<rparr>]\<rparr>)
   \<and> (\<exists>i. records (Some \<lparr>seq = 2,
           rows = [\<lparr>row_id = 1, timestamp = ''2024-05-01T12:00:00'', emotion = ''happy'',
                    confidence = 9 / 10\<rparr>,
                   \<lparr>row_id = 2, timestamp = ''2024-05-01T12:00:00'', emotion = ''happy'',
                    confidence = 9 / 10\<rparr>]\<rparr>)
         = records one_row_store @
            [\<lparr>row_id = i, timestamp = utcnow_isoformat (sample_env [happy_face]),
              emotion = ''happy'', confidence = 9 / 10\<rparr>])"
proof -
  have p: "predict (sample_env [happy_face]) one_row_store sample_payload
     = (Inr (JObj [(''emotion'', JStr ''happy''), (''confidence'', JNum (9 / 10))], 200),
        Some \<lparr>seq = 2,
           rows = [\<lparr>row_id = 1, timestamp = ''2024-05-01T12:00:00'', emotion = ''happy'',
                    confidence = 9 / 10\<rparr>,
                   \<lparr>row_id = 2, timestamp = ''2024-05-01T12:00:00'', emotion = ''happy'',
                    confidence = 9 / 10\<rparr>]\<rparr>)"
    by (simp add: predict_def sample_env_def sample_payload_def one_row_store_def
          happy_face_def face_emotions_def py_max_def dict_keys_def dict_get_def
          dict_subscript_def save_prediction_def next_id_def)
  have e: "field (JObj [(''emotion'', JStr ''happy''), (''confidence'', JNum (9 / 10))]) ''emotion''
             = Some (JStr ''happy'')" by (simp add: field_def)
  have c: "field (JObj [(''emotion'', JStr ''happy''), (''confidence'', JNum (9 / 10))]) ''confidence''
             = Some (JNum (9 / 10))" by (simp add: field_def)
  from predict_result_logged[OF p e c] p show ?thesis by simp
qed

text \<open>
  Claim C3. In every state the service can be in, \<^verbatim>\<open>/history\<close> answers with status 200
  and the list of the most recently inserted rows, newest first, cut after 100 entries;
  each entry exposes the row's timestamp, emotion label and confidence.
\<close>

theorem history_most_recent:
  assumes "reachable d"
  shows "history d =
           (Inr (JObj [(''history'',
                   JArr (map (\<lambda>r. JObj [(''timestamp'', JStr (timestamp r)),
                                          (''emotion'', JStr (emotion r)),
                                          (''confidence'', JNum (confidence r))])
                             (take 100 (rev (records d)))))], 200), d)
         \<and> length (take 100 (rev (records d))) \<le> 100"
proof -
  from assms have "reachable_under (\<lambda>env. True) d" by (simp add: reachable_def)
  then have "d \<noteq> None \<and> ids_ascending d" by (rule reachable_under_table)
  then obtain t where t: "d = Some t" and asc: "sorted_wrt (<) (map row_id (rows t))"
    by (auto simp: ids_ascending_def records_def)
  from asc have "sorted (map row_id (rows t))"
    by (rule sorted_wrt_mono_rel[rotated]) simp
  then have "sort_key row_id (rows t) = rows t" by (rule sort_key_id_if_sorted)
  then show ?thesis
    by (simp add: t history_def select_recent_def records_def history_entry_def)
qed

text \<open>
  The statement at two stores. After three predictions at different times the answer
  lists the three rows, the last one written first. After 101 predictions the answer has
  100 entries, from the newest (score 100 / 200) down to the second oldest
  (score 1 / 200): the oldest row is cut.
\<close>

theorem history_most_recent_witness:
  "reachable three_row_store
   \<and> map timestamp (records three_row_store)
       = [''2024-05-01T12:00:01'', ''2024-05-01T12:00:02'', ''2024-05-01T12:00:03'']
   \<and> history three_row_store =
       (Inr (JObj [(''history'',
          JArr [JObj [(''timestamp'', JStr ''2024-05-01T12:00:03''), (''emotion'', JStr ''happy''),
                      (''confidence'', JNum (9 / 10))],
                JObj [(''timestamp'', JStr ''2024-05-01T12:00:02''), (''emotion'', JStr ''sad''),
                      (''confidence'', JNum (4 / 5))],
                JObj [(''timestamp'', JStr ''2024-05-01T12:00:01''), (''emotion'', JStr ''happy''),
                      (''confidence'', JNum (9 / 10))]])], 200), three_row_store)
   \<and> reachable (served_store 101)
   \<and> length (records (served_store 101)) = 101
   \<and> history (served_store 101) =
       (Inr (JObj [(''history'',
          JArr (map (\<lambda>k. JObj [(''timestamp'', JStr ''2024-05-01T12:00:00''),
                                (''emotion'', JStr ''happy''),
                                (''confidence'', JNum (real k / 200))])
                    (rev [1..<101])))], 200), served_store 101)"
proof -
  have "reachable_under (\<lambda>env. True) (init_db None)" by (rule reachable_under.startup)
  then have "reachable_under (\<lambda>env. True)
      (snd (predict (sample_env_at ''2024-05-01T12:00:01'' [happy_face])
            (init_db None) sample_payload))"
    by (rule reachable_under.predict_step) simp
  then have "reachable_under (\<lambda>env. True)
      (snd (predict (sample_env_at ''2024-05-01T12:00:02'' [sad_face])
         (snd (predict (sample_env_at ''2024-05-01T12:00:01'' [happy_face])
            (init_db None) sample_payload))
         sample_payload))"
    by (rule reachable_under.predict_step) simp
  then have "reachable_under (\<lambda>env. True) three_row_store"
    unfolding three_row_store_def by (rule reachable_under.predict_step) simp
  then have r3: "reachable three_row_store" by (simp add: reachable_def)
  have h3: "history three_row_store =
       (Inr (JObj [(''history'',
          JArr [JObj [(''timestamp'', JStr ''2024-05-01T12:00:03''), (''emotion'', JStr ''happy''),
                      (''confidence'', JNum (9 / 10))],
                JObj [(''timestamp'', JStr ''2024-05-01T12:00:02''), (''emotion'', JStr ''sad''),
                      (''confidence'', JNum (4 / 5))],
                JObj [(''timestamp'', JStr ''2024-05-01T12:00:01''), (''emotion'', JStr ''happy''),
                      (''confidence'', JNum (9 / 10))]])], 200), three_row_store)"
    using history_most_recent[OF r3]
    by (simp add: three_row_store_rows records_def)
  have r101: "reachable (served_store 101)" by (rule served_store_reachable)
  have recs: "records (served_store 101) =
      map (\<lambda>k. \<lparr>row_id = int k + 1, timestamp = ''2024-05-01T12:00:00'',
                  emotion = ''happy'', confidence = real k / 200\<rparr>) [0..<101]"
    by (simp only: served_store_rows records_def option.case pred_table.simps)
  have cut: "take 100 (rev (records (served_store 101))) =
      map (\<lambda>k. \<lparr>row_id = int k + 1, timestamp = ''2024-05-01T12:00:00'',
                  emotion = ''happy'', confidence = real k / 200\<rparr>) (rev [1..<101])"
  proof -
    have "take 100 (rev [0..<101]) = rev (drop 1 [0..<101])"
      by (simp only: take_rev length_upt) simp
    also have "drop 1 [0..<101] = [1..<101]"
      by (simp only: drop_upt) simp
    finally have idx: "take 100 (rev [0..<101]) = rev [1..<101]" .
    show ?thesis
      unfolding recs by (simp only: rev_map take_map idx)
  qed
  have len: "length (records (served_store 101)) = 101" unfolding recs by simp
  have h101: "history (served_store 101) =
       (Inr (JObj [(''history'',
          JArr (map (\<lambda>k. JObj [(''timestamp'', JStr ''2024-05-01T12:00:00''),
                                (''emotion'', JStr ''happy''),
                                (''confidence'', JNum (real k / 200))])
                    (rev [1..<101])))], 200), served_store 101)"
    using history_most_recent[OF r101] unfolding cut by (simp add: comp_def)
  have ts: "map timestamp (records three_row_store)
       = [''2024-05-01T12:00:01'', ''2024-05-01T12:00:02'', ''2024-05-01T12:00:03'']"
    by (simp add: three_row_store_rows records_def)
  from r3 ts h3 r101 len h101 show ?thesis by simp
qed

text \<open>
  Claim C4. After a \<^verbatim>\<open>/predict\<close> request that returned a label \<open>l\<close> with confidence \<open>c\<close>, a
  \<^verbatim>\<open>/history\<close> request on the resulting store succeeds and its first entry is the row
  just written: the time of the call, \<open>l\<close> and \<open>c\<close>.
\<close>

theorem predict_then_history:
  assumes "predict env d payload = (Inr (body, status), d')"
    and "field body ''emotion'' = Some (JStr l)"
    and "field body ''confidence'' = Some (JNum c)"
  shows "\<exists>older. history d' =
           (Inr (JObj [(''history'',
                   JArr (JObj [(''timestamp'', JStr (utcnow_isoformat env)),
                               (''emotion'', JStr l), (''confidence'', JNum c)] # older))],
                 200), d')"
  using predict_outcome[OF assms(1)] assms(2,3)
  by (auto simp: field_def history_def select_recent_after_insert history_entry_def)

text \<open>
  The statement at a request on a store that already holds one row: the new row comes
  before the old one.
\<close>

theorem predict_then_history_witness:
  "predict (sample_env [happy_face]) one_row_store sample_payload
     = (Inr (JObj [(''emotion'', JStr ''happy''), (''confidence'', JNum (9 / 10))], 200),
        snd (predict (sample_env [happy_face]) one_row_store sample_payload))
   \<and> (\<exists>older. history (snd (predict (sample_env [happy_face]) one_row_store sample_payload)) =
           (Inr (JObj [(''history'',
                   JArr (JObj [(''timestamp'', JStr ''2024-05-01T12:00:00''),
                               (''emotion'', JStr ''happy''), (''confidence'', JNum (9 / 10))]
                         # older))],
                 200), snd (predict (sample_env [happy_face]) one_row_store sample_payload)))"
proof -
  have p: "predict (sample_env [happy_face]) one_row_store sample_payload
     = (Inr (JObj [(''emotion'', JStr ''happy''), (''confidence'', JNum (9 / 10))], 200),
        snd (predict (sample_env [happy_face]) one_row_store sample_payload))"
    by (simp add: predict_def sample_env_def sample_payload_def one_row_store_def
          happy_face_def face_emotions_def py_max_def dict_keys_def dict_get_def
          dict_subscript_def save_prediction_def next_id_def)
  have e: "field (JObj [(''emotion'', JStr ''happy''), (''confidence'', JNum (9 / 10))]) ''emotion''
             = Some (JStr ''happy'')" by (simp add: field_def)
  have c: "field (JObj [(''emotion'', JStr ''happy''), (''confidence'', JNum (9 / 10))]) ''confidence''
             = Some (JNum (9 / 10))" by (simp add: field_def)
  have u: "utcnow_isoformat (sample_env [happy_face]) = ''2024-05-01T12:00:00''"
    by (simp add: sample_env_def)
  from predict_then_history[OF p e c] p u show ?thesis by simp
qed

text \<open>
  Claim C5. The store is append-only. \<open>init_db\<close> and \<^verbatim>\<open>/history\<close> leave the list of rows as
  it is; \<^verbatim>\<open>/predict\<close> leaves it as it is or puts exactly one row after the rows that were
  there, which stay in place and unmodified.
\<close>

theorem store_append_only:
  "records (init_db d) = records d
   \<and> records (snd (history d)) = records d
   \<and> (records (snd (predict env d payload)) = records d
      \<or> (\<exists>r. records (snd (predict env d payload)) = records d @ [r]))"
proof -
  have a: "records (init_db d) = records d"
    by (cases d) (simp_all add: init_db_def records_def)
  have b: "records (snd (history d)) = records d"
    by (simp add: history_keeps_store)
  obtain out d' where p: "predict env d payload = (out, d')" by (cases "predict env d payload")
  from predict_outcome[OF p]
  have c: "records d' = records d \<or> (\<exists>r. records d' = records d @ [r])"
    by (auto simp: records_def)
  from a b c p show ?thesis by simp
qed

text \<open>
  Claim C6. The route \<^verbatim>\<open>/history\<close> is a pure read: whatever the store holds, handling the
  request leaves it exactly as it was (same table, same rows in the same order, same
  counter), also when the request fails because the table is missing.
\<close>

theorem history_pure_read: "snd (history d) = d"
  by (cases d) (simp_all add: history_def)

text \<open>
  Claim C7. Suppose the detector keeps its contract (every score of every face it
  returns lies in [0,1]) in this request and in all earlier ones. Then the \<^verbatim>\<open>confidence\<close>
  member of the response, when the response has one, lies in [0,1], and so does the
  confidence of every row of the store, before and after the request.
\<close>

theorem confidence_in_unit_interval:
  assumes "reachable_under scores_in_unit d" and "scores_in_unit env"
  shows "(\<forall>body status c. fst (predict env d payload) = Inr (body, status)
              \<and> field body ''confidence'' = Some (JNum c) \<longrightarrow> 0 \<le> c \<and> c \<le> 1)
         \<and> confidences_in_unit d
         \<and> confidences_in_unit (snd (predict env d payload))"
proof -
  from assms have "reachable_under scores_in_unit (snd (predict env d payload))"
    by (rule reachable_under.predict_step)
  then have after: "confidences_in_unit (snd (predict env d payload))"
    by (rule reachable_under_confidences)
  from assms(1) have before: "confidences_in_unit d" by (rule reachable_under_confidences)
  obtain out d' where p: "predict env d payload = (out, d')" by (cases "predict env d payload")
  have "0 \<le> c \<and> c \<le> 1"
    if "out = Inr (body, status)" and "field body ''confidence'' = Some (JNum c)"
    for body status c
  proof -
    from predict_outcome[OF p] that
    consider "c = 0"
      | img f fs l where "detect_emotions env img = Inr (f # fs)"
          "map_of (face_emotions f) l = Some c"
      by (auto simp: field_def)
    then show ?thesis
    proof cases
      case 1
      then show ?thesis by simp
    next
      case 2
      from 2(2) have "(l, c) \<in> set (face_emotions f)" by (rule map_of_SomeD)
      with assms(2) 2(1) show ?thesis unfolding scores_in_unit_def by fastforce
    qed
  qed
  with p before after show ?thesis by simp
qed

text \<open>
  The statement at the first request after startup.
\<close>

theorem confidence_in_unit_interval_witness:
  "reachable_under scores_in_unit (init_db None)
   \<and> scores_in_unit (sample_env [happy_face])
   \<and> fst (predict (sample_env [happy_face]) (init_db None) sample_payload)
       = Inr (JObj [(''emotion'', JStr ''happy''), (''confidence'', JNum (9 / 10))], 200)
   \<and> (0::real) \<le> 9 / 10 \<and> (9 / 10 :: real) \<le> 1
   \<and> confidences_in_unit (snd (predict (sample_env [happy_face]) (init_db None) sample_payload))"
proof -
  have r: "reachable_under scores_in_unit (init_db None)" by (rule reachable_under.startup)
  have s: "scores_in_unit (sample_env [happy_face])"
    by (simp add: scores_in_unit_def sample_env_def happy_face_def face_emotions_def)
  have p: "fst (predict (sample_env [happy_face]) (init_db None) sample_payload)
       = Inr (JObj [(''emotion'', JStr ''happy''), (''confidence'', JNum (9 / 10))], 200)"
    by (simp add: predict_def sample_env_def sample_payload_def init_db_def
          happy_face_def face_emotions_def py_max_def dict_keys_def dict_get_def
          dict_subscript_def save_prediction_def next_id_def)
  from confidence_in_unit_interval[OF r s, of sample_payload] r s p show ?thesis by simp
qed



text \<open>
  Claim C9. When the request carries an image that decodes and the detector reports no
  face, or the first face has an empty emotion-score mapping, \<^verbatim>\<open>/predict\<close> answers with
  status 200, emotion null, confidence 0.0 and a message (\<^verbatim>\<open>No face detected\<close> in the first
  case, \<^verbatim>\<open>No emotion scores\<close> in the second), and the store is unchanged.
\<close>

theorem predict_no_prediction:
  assumes "payload = JObj kvs" and "map_of kvs ''image'' = Some u"
    and "data_url_to_cv2_image env u = Inr (Some img)"
    and "detect_emotions env img = Inr faces"
    and "faces = [] \<or> (\<exists>f fs. faces = f # fs \<and> face_emotions f = [])"
  shows "predict env d payload =
           (Inr (JObj [(''emotion'', JNull), (''confidence'', JNum 0),
                       (''message'', JStr (if faces = [] then ''No face detected''
                                           else ''No emotion scores''))], 200), d)"
  using assms(3-5) unfolding predict_image_path[OF assms(1,2)] by auto

text \<open>
  The statement at a request whose first face has no scores while the second has some.
\<close>

theorem predict_no_prediction_witness:
  "predict (sample_env [blank_face, happy_face]) one_row_store sample_payload =
     (Inr (JObj [(''emotion'', JNull), (''confidence'', JNum 0),
                 (''message'', JStr ''No emotion scores'')], 200), one_row_store)"
proof -
  have 1: "sample_payload = JObj [(''image'', JStr ''data:image/png;base64,iVBORw=='')]"
    by (simp add: sample_payload_def)
  have 2: "map_of [(''image'', JStr ''data:image/png;base64,iVBORw=='')] ''image''
             = Some (JStr ''data:image/png;base64,iVBORw=='')" by simp
  have 3: "data_url_to_cv2_image (sample_env [blank_face, happy_face])
             (JStr ''data:image/png;base64,iVBORw=='') = Inr (Some [[(0, 0, 255)]])"
    by (simp add: sample_env_def)
  have 4: "detect_emotions (sample_env [blank_face, happy_face]) [[(0, 0, 255)]]
             = Inr [blank_face, happy_face]"
    by (simp add: sample_env_def)
  have 5: "[blank_face, happy_face] = [] \<or>
           (\<exists>f fs. [blank_face, happy_face] = f # fs \<and> face_emotions f = [])"
    by (simp add: face_emotions_def blank_face_def)
  from predict_no_prediction[OF 1 2 3 4 5, of one_row_store] show ?thesis by simp
qed

text \<open>
  Claim C10. The answer of \<^verbatim>\<open>/predict\<close> depends on the first detected face only: replace
  the detector by one that, on the decoded image, returns a list of faces whose first
  face has the same emotion-score mapping, whatever the other faces are; then the
  request has the same outcome (the same label and confidence in the response, and the
  same store afterwards).
\<close>

theorem predict_first_face_only:
  assumes "payload = JObj kvs" and "map_of kvs ''image'' = Some u"
    and "data_url_to_cv2_image env u = Inr (Some img)"
    and "detect_emotions env img = Inr (f1 # fs1)"
    and "det2 img = Inr (f2 # fs2)"
    and "face_emotions f1 = face_emotions f2"
  shows "predict (env\<lparr>detect_emotions := det2\<rparr>) d payload = predict env d payload"
  unfolding predict_image_path[OF assms(1,2)] data_url_detector_irrelevant
  by (simp add: assms(3-6) split: sum.split)

text \<open>
  The statement at detectors returning one face and the same face followed by another.
\<close>

theorem predict_first_face_only_witness:
  "predict (sample_env [happy_face, sad_face]) one_row_store sample_payload
     = predict (sample_env [happy_face]) one_row_store sample_payload"
proof -
  have 1: "sample_payload = JObj [(''image'', JStr ''data:image/png;base64,iVBORw=='')]"
    by (simp add: sample_payload_def)
  have 2: "map_of [(''image'', JStr ''data:image/png;base64,iVBORw=='')] ''image''
             = Some (JStr ''data:image/png;base64,iVBORw=='')" by simp
  have 3: "data_url_to_cv2_image (sample_env [happy_face])
             (JStr ''data:image/png;base64,iVBORw=='') = Inr (Some [[(0, 0, 255)]])"
    by (simp add: sample_env_def)
  have 4: "detect_emotions (sample_env [happy_face]) [[(0, 0, 255)]] = Inr (happy_face # [])"
    by (simp add: sample_env_def)
  have 5: "(\<lambda>img. Inr [happy_face, sad_face]) [[(0, 0, 255)]] = Inr (happy_face # [sad_face])"
    by simp
  have 6: "face_emotions happy_face = face_emotions happy_face" by simp
  have 7: "(sample_env [happy_face])\<lparr>detect_emotions := (\<lambda>img. Inr [happy_face, sad_face])\<rparr>
             = sample_env [happy_face, sad_face]"
    by (simp add: sample_env_def)
  from predict_first_face_only[OF 1 2 3 4 5 6, of one_row_store] 7 show ?thesis by simp
qed

end
